theory Spec2Isabelle
  imports Complex_Main "HOL-Library.Sublist"
begin

section \<open>Python values, dictionaries and exceptions\<close>

text \<open>
  The prediction service of \<^verbatim>\<open>system-architecture.py\<close> passes predictions around as
  Python dictionaries with string keys. A value is \<^verbatim>\<open>None\<close>, a number (Python \<^verbatim>\<open>int\<close>
  and \<^verbatim>\<open>float\<close>, idealised as a real: rounding and NaN are not modelled), a string or
  a dictionary. \<open>PIso t\<close> is a string that renders the naive datetime \<open>t\<close>
  (microseconds since the epoch) in a form \<^verbatim>\<open>datetime.fromisoformat\<close> reads, as
  \<^verbatim>\<open>datetime.isoformat()\<close> does; \<open>PStr\<close> is any other string. A dictionary is an
  association list in insertion order.
\<close>

datatype pyval =
    PNone
  | PNum real
  | PStr string
  | PIso int
  | PDict "(string \<times> pyval) list"

type_synonym pydict = "(string \<times> pyval) list"

datatype error =
    KeyError string
  | TypeError
  | AttributeError
  | ValueError
  | NameError string
  | ExternalFailure string

text \<open>\<^verbatim>\<open>d[k]\<close>: the value under \<open>k\<close>, or \<^verbatim>\<open>KeyError\<close>.\<close>

definition dict_get :: "pydict \<Rightarrow> string \<Rightarrow> error + pyval" where
  "dict_get d k = (case map_of d k of None \<Rightarrow> Inl (KeyError k) | Some v \<Rightarrow> Inr v)"

text \<open>\<^verbatim>\<open>d[k] = v\<close>: overwrite in place, or append a new key.\<close>

fun dict_set :: "pydict \<Rightarrow> string \<Rightarrow> pyval \<Rightarrow> pydict" where
  "dict_set [] k v = [(k, v)]"
| "dict_set ((k', v') # d) k v = (if k' = k then (k, v) # d else (k', v') # dict_set d k v)"

text \<open>\<^verbatim>\<open>v < c\<close> and \<^verbatim>\<open>v > c\<close> against a numeric constant: only numbers are ordered
  against numbers, anything else is a \<^verbatim>\<open>TypeError\<close>.\<close>

fun py_lt :: "pyval \<Rightarrow> real \<Rightarrow> error + bool" where
  "py_lt (PNum x) c = Inr (x < c)"
| "py_lt _ c = Inl TypeError"

fun py_gt :: "pyval \<Rightarrow> real \<Rightarrow> error + bool" where
  "py_gt (PNum x) c = Inr (x > c)"
| "py_gt _ c = Inl TypeError"

text \<open>\<^verbatim>\<open>sum(xs)\<close>: starts from 0 and adds from the left; a non-number is a
  \<^verbatim>\<open>TypeError\<close>.\<close>

fun py_sum :: "pyval list \<Rightarrow> real \<Rightarrow> error + real" where
  "py_sum [] acc = Inr acc"
| "py_sum (PNum x # vs) acc = py_sum vs (acc + x)"
| "py_sum (_ # vs) acc = Inl TypeError"

text \<open>\<^verbatim>\<open>v.values()\<close>: only a dictionary has the method.\<close>

fun py_values :: "pyval \<Rightarrow> error + pyval list" where
  "py_values (PDict d) = Inr (map snd d)"
| "py_values _ = Inl AttributeError"

text \<open>\<^verbatim>\<open>k in v\<close>: key membership in a dictionary, substring test in a string (no
  feature name occurs in the rendering of a datetime), \<^verbatim>\<open>TypeError\<close> for a value that is not a container.\<close>

fun py_in :: "string \<Rightarrow> pyval \<Rightarrow> error + bool" where
  "py_in k (PDict d) = Inr (map_of d k \<noteq> None)"
| "py_in k (PStr s) = Inr (sublist k s)"
| "py_in k (PIso t) = Inr False"
| "py_in k _ = Inl TypeError"

text \<open>Sequencing of steps that may raise: the first exception ends the call.\<close>

definition bind :: "error + 'a \<Rightarrow> ('a \<Rightarrow> error + 'b) \<Rightarrow> error + 'b" where
  "bind r f = (case r of Inl e \<Rightarrow> Inl e | Inr x \<Rightarrow> f x)"

section \<open>PredictionValidator\<close>

definition confidence_min :: real where
  "confidence_min = 0.6"

definition probability_sum_max :: real where
  "probability_sum_max = 1.1"

definition max_goals :: real where
  "max_goals = 10"

text \<open>The four rejection messages and the acceptance message, as UTF-8 bytes:
  \<^verbatim>\<open>Confiance insuffisante\<close>, \<^verbatim>\<open>Probabilites incoherentes\<close>,
  \<^verbatim>\<open>Scores predits anormalement eleves\<close>, \<^verbatim>\<open>Donnees d'entree invalides ou incompletes\<close>
  and \<^verbatim>\<open>Prediction valide\<close>, each with the accents of the source (e acute is
  \<open>0xC3 0xA9\<close>, e grave is \<open>0xC3 0xA8\<close>, capital E acute is \<open>0xC3 0x89\<close>).\<close>

definition e_acute :: string where
  "e_acute = [CHR 0xC3, CHR 0xA9]"

definition e_grave :: string where
  "e_grave = [CHR 0xC3, CHR 0xA8]"

definition msg_low_confidence :: string where
  "msg_low_confidence = ''Confiance insuffisante''"

definition msg_inconsistent_probabilities :: string where
  "msg_inconsistent_probabilities =
     ''Probabilit'' @ e_acute @ ''s incoh'' @ e_acute @ ''rentes''"

definition msg_score_out_of_range :: string where
  "msg_score_out_of_range =
     ''Scores pr'' @ e_acute @ ''dits anormalement '' @ e_acute @ ''lev'' @ e_acute @ ''s''"

definition msg_missing_features :: string where
  "msg_missing_features =
     ''Donn'' @ e_acute @ ''es d'' @ [CHR 0x27] @ ''entr'' @ e_acute
       @ ''e invalides ou incompl'' @ e_grave @ ''tes''"

definition msg_ok :: string where
  "msg_ok = ''Pr'' @ e_acute @ ''diction valide''"

definition required_features :: "string list" where
  "required_features =
     [''team_form'', ''historical_performance'', ''player_statistics'', ''weather_conditions'']"

text \<open>\<^verbatim>\<open>all(feature in features for feature in ks)\<close>: stops at the first feature
  that is absent, raises where the membership test raises.\<close>

fun all_in :: "string list \<Rightarrow> pyval \<Rightarrow> error + bool" where
  "all_in [] features = Inr True"
| "all_in (k # ks) features =
     bind (py_in k features) (\<lambda>b. if b then all_in ks features else Inr False)"

definition validate_input_features :: "pyval \<Rightarrow> error + bool" where
  "validate_input_features features = all_in required_features features"

text \<open>\<^verbatim>\<open>a > max_goals or b > max_goals\<close> on the two scores: the second operand
  (its subscript included) is only evaluated when the first is false.\<close>

definition score_too_high :: "pydict \<Rightarrow> error + bool" where
  "score_too_high prediction =
     bind (dict_get prediction ''home_score'') (\<lambda>hs.
     bind (py_gt hs max_goals) (\<lambda>home_high.
     if home_high then Inr True
     else bind (dict_get prediction ''away_score'') (\<lambda>aws. py_gt aws max_goals)))"

text \<open>\<^verbatim>\<open>sum(prediction['probabilities'].values())\<close>.\<close>

definition probability_sum :: "pydict \<Rightarrow> error + real" where
  "probability_sum prediction =
     bind (dict_get prediction ''probabilities'') (\<lambda>ps.
     bind (py_values ps) (\<lambda>vs. py_sum vs 0))"

text \<open>\<^verbatim>\<open>validate_prediction\<close>: every subscript, comparison and call of the source is
  a step that may raise, in the order of the source.\<close>

definition validate_prediction :: "pydict \<Rightarrow> error + (bool \<times> string)" where
  "validate_prediction prediction =
     bind (dict_get prediction ''confidence'') (\<lambda>c.
     bind (py_lt c confidence_min) (\<lambda>low.
     if low then Inr (False, msg_low_confidence) else
     bind (probability_sum prediction) (\<lambda>s.
     if s > probability_sum_max then Inr (False, msg_inconsistent_probabilities) else
     bind (score_too_high prediction) (\<lambda>high.
     if high then Inr (False, msg_score_out_of_range) else
     bind (dict_get prediction ''features'') (\<lambda>fs.
     bind (validate_input_features fs) (\<lambda>ok.
     if \<not> ok then Inr (False, msg_missing_features) else
     Inr (True, msg_ok)))))))"

section \<open>Logging\<close>

text \<open>The records the module's logger receives, each with the data its message carries:
  the start of an update, the new version after a promotion, the exception an update
  raised, and the match identifier and reason of an invalid prediction.\<close>

datatype log_entry =
    InfoUpdateStarted
  | InfoUpdated real
  | ErrorUpdate error
  | WarningInvalid string string

section \<open>CacheManager\<close>

text \<open>
  The Redis client holds, under each key, a string and the instant at which the key
  expires; \<^verbatim>\<open>GET\<close> does not see an expired key. Instants and durations are in
  microseconds, the resolution of \<^verbatim>\<open>datetime\<close>. A call reads two clocks: the one of the
  process (\<^verbatim>\<open>datetime.now()\<close>) and the one of the Redis server, which decides expiry.
\<close>

type_synonym redis_client = "string \<rightharpoonup> (int \<times> string)"

record clock =
  process_now :: int
  server_now :: int

definition redis_get :: "redis_client \<Rightarrow> int \<Rightarrow> string \<Rightarrow> string option" where
  "redis_get r now key =
     (case r key of
        None \<Rightarrow> None
      | Some (expires, data) \<Rightarrow> if now < expires then Some data else None)"

definition redis_setex ::
  "redis_client \<Rightarrow> int \<Rightarrow> string \<Rightarrow> int \<Rightarrow> string \<Rightarrow> redis_client" where
  "redis_setex r now key ttl data = r(key \<mapsto> (now + ttl, data))"

text \<open>The module calls \<^verbatim>\<open>json.loads\<close> and \<^verbatim>\<open>json.dumps\<close> and never imports
  \<^verbatim>\<open>json\<close>: evaluating the name raises \<^verbatim>\<open>NameError\<close>, whatever the argument.\<close>

definition json_loads :: "string \<Rightarrow> error + pydict" where
  "json_loads data = Inl (NameError ''json'')"

definition json_dumps :: "pydict \<Rightarrow> error + string" where
  "json_dumps d = Inl (NameError ''json'')"

definition six_hours :: int where
  "six_hours = 6 * 3600 * 1000000"

definition prediction_key :: "string \<Rightarrow> string" where
  "prediction_key match_id = ''prediction:'' @ match_id"

text \<open>\<^verbatim>\<open>datetime.fromisoformat\<close>: reads a string that renders a datetime; a string
  that renders none is a \<^verbatim>\<open>ValueError\<close>, a value that is not a string a
  \<^verbatim>\<open>TypeError\<close>.\<close>

fun datetime_fromisoformat :: "pyval \<Rightarrow> error + int" where
  "datetime_fromisoformat (PIso t) = Inr t"
| "datetime_fromisoformat (PStr s) = Inl ValueError"
| "datetime_fromisoformat _ = Inl TypeError"

text \<open>\<^verbatim>\<open>get_cached_prediction\<close>: \<^verbatim>\<open>if cached_data:\<close> is true for a string that is
  not empty.\<close>

definition get_cached_prediction ::
  "redis_client \<Rightarrow> clock \<Rightarrow> string \<Rightarrow> error + pydict option" where
  "get_cached_prediction r clk match_id =
     (case redis_get r (server_now clk) (prediction_key match_id) of
        None \<Rightarrow> Inr None
      | Some cached_data \<Rightarrow>
          if cached_data \<noteq> [] then
            bind (json_loads cached_data) (\<lambda>prediction.
            bind (dict_get prediction ''timestamp'') (\<lambda>ts.
            bind (datetime_fromisoformat ts) (\<lambda>stamped.
            if stamped > process_now clk - six_hours then Inr (Some prediction)
            else Inr None)))
          else Inr None)"

text \<open>\<^verbatim>\<open>cache_prediction\<close> first writes the timestamp into the dictionary it is given,
  which is the caller's; the arguments of \<^verbatim>\<open>setex\<close> are evaluated next, and
  \<^verbatim>\<open>SETEX\<close> is sent only if they all are. The function gives the client after the call,
  or the exception, and the caller's dictionary after the call.\<close>

definition cache_prediction ::
  "redis_client \<Rightarrow> clock \<Rightarrow> string \<Rightarrow> pydict \<Rightarrow> (error + redis_client) \<times> pydict" where
  "cache_prediction r clk match_id prediction =
     (let stamped = dict_set prediction ''timestamp'' (PIso (process_now clk))
      in (bind (json_dumps stamped) (\<lambda>data.
            Inr (redis_setex r (server_now clk) (prediction_key match_id) six_hours data)),
          stamped))"

section \<open>PredictionManager\<close>

text \<open>
  The state a request works on: the Redis client, the log, and the match identifiers
  \<^verbatim>\<open>generate_prediction\<close> was called with. \<^verbatim>\<open>generate_prediction\<close> is called but not
  defined in the module: it is the parameter \<open>generate\<close>, which returns a prediction or
  raises. A request reads the clocks at the cache lookup (\<open>clk_get\<close>) and again when it
  stores (\<open>clk_set\<close>). An exception keeps what the request did before it.
\<close>

record service =
  redis :: redis_client
  warnings :: "log_entry list"
  generated :: "string list"

definition get_fallback_prediction :: "string \<Rightarrow> pydict" where
  "get_fallback_prediction match_id =
     [(''home_score'', PNone),
      (''away_score'', PNone),
      (''confidence'', PNum 0),
      (''message'', PStr (''Pr'' @ e_acute @ ''diction impossible - donn'' @ e_acute
                          @ ''es insuffisantes''))]"

text \<open>The request after a cache miss: generation, validation, then fallback or caching.
  The prediction returned after caching is the dictionary \<^verbatim>\<open>cache_prediction\<close> wrote
  into.\<close>

definition generate_and_validate ::
  "(string \<Rightarrow> error + pydict) \<Rightarrow> clock \<Rightarrow> string \<Rightarrow> service \<Rightarrow> (error + pydict) \<times> service" where
  "generate_and_validate generate clk_set match_id s =
     (let s1 = s\<lparr>generated := generated s @ [match_id]\<rparr> in
      case generate match_id of
        Inl e \<Rightarrow> (Inl e, s1)
      | Inr prediction \<Rightarrow>
          (case validate_prediction prediction of
             Inl e \<Rightarrow> (Inl e, s1)
           | Inr (is_valid, message) \<Rightarrow>
               if \<not> is_valid then
                 (Inr (get_fallback_prediction match_id),
                  s1\<lparr>warnings := warnings s1 @ [WarningInvalid match_id message]\<rparr>)
               else
                 (case cache_prediction (redis s1) clk_set match_id prediction of
                    (Inl e, stamped) \<Rightarrow> (Inl e, s1)
                  | (Inr r, stamped) \<Rightarrow> (Inr stamped, s1\<lparr>redis := r\<rparr>))))"

text \<open>\<^verbatim>\<open>get_prediction\<close>: \<^verbatim>\<open>if cached_prediction:\<close> is true for a dictionary that is
  not empty.\<close>

definition get_prediction ::
  "(string \<Rightarrow> error + pydict) \<Rightarrow> clock \<Rightarrow> clock \<Rightarrow> string \<Rightarrow> service \<Rightarrow> (error + pydict) \<times> service" where
  "get_prediction generate clk_get clk_set match_id s =
     (case get_cached_prediction (redis s) clk_get match_id of
        Inl e \<Rightarrow> (Inl e, s)
      | Inr cached_prediction \<Rightarrow>
          (case cached_prediction of
             Some (kv # d) \<Rightarrow> (Inr (kv # d), s)
           | _ \<Rightarrow> generate_and_validate generate clk_set match_id s))"

section \<open>ModelUpdateManager: the promotion decision\<close>

definition improvement_threshold :: real where
  "improvement_threshold = 0.02"

text \<open>\<^verbatim>\<open>a - b\<close> on two values: numbers subtract, anything else is a \<^verbatim>\<open>TypeError\<close>.\<close>

fun py_sub :: "pyval \<Rightarrow> pyval \<Rightarrow> error + pyval" where
  "py_sub (PNum x) (PNum y) = Inr (PNum (x - y))"
| "py_sub _ _ = Inl TypeError"

text \<open>\<^verbatim>\<open>all(imp > c for imp in vs)\<close>: stops at the first value that is not above
  \<open>c\<close>.\<close>

fun all_gt :: "pyval list \<Rightarrow> real \<Rightarrow> error + bool" where
  "all_gt [] c = Inr True"
| "all_gt (v # vs) c = bind (py_gt v c) (\<lambda>b. if b then all_gt vs c else Inr False)"

text \<open>The dictionary literal \<^verbatim>\<open>metrics_comparison\<close>: its three values are evaluated in
  the order they are written, each from the left operand to the right one.\<close>

definition metrics_comparison :: "pydict \<Rightarrow> pydict \<Rightarrow> error + pydict" where
  "metrics_comparison current_metrics new_metrics =
     bind (dict_get new_metrics ''accuracy'') (\<lambda>na.
     bind (dict_get current_metrics ''accuracy'') (\<lambda>ca.
     bind (py_sub na ca) (\<lambda>d_accuracy.
     bind (dict_get current_metrics ''rmse'') (\<lambda>cr.
     bind (dict_get new_metrics ''rmse'') (\<lambda>nr.
     bind (py_sub cr nr) (\<lambda>d_rmse.
     bind (dict_get current_metrics ''log_loss'') (\<lambda>cl.
     bind (dict_get new_metrics ''log_loss'') (\<lambda>nl.
     bind (py_sub cl nl) (\<lambda>d_log_loss.
     Inr [(''accuracy'', d_accuracy), (''rmse'', d_rmse), (''log_loss'', d_log_loss)])))))))))"

definition should_update_models :: "pydict \<Rightarrow> pydict \<Rightarrow> error + bool" where
  "should_update_models current_metrics new_metrics =
     bind (metrics_comparison current_metrics new_metrics) (\<lambda>mc.
     all_gt (map snd mc) improvement_threshold)"

section \<open>ModelUpdateManager: the update cycle\<close>

text \<open>
  The manager holds the version number, the deployed models, the lock and its part of the
  log.
  The five steps of the cycle (\<^verbatim>\<open>collect_new_training_data\<close>,
  \<^verbatim>\<open>evaluate_current_models\<close>, \<^verbatim>\<open>train_new_models\<close>, \<^verbatim>\<open>evaluate_models\<close>,
  \<^verbatim>\<open>deploy_new_models\<close>) are called but not defined in the module: they are parameters
  here, each returning a value or raising. A step that raises leaves the manager as it was.
\<close>

record 'm manager =
  current_model_version :: real
  models :: 'm
  update_lock :: bool
  log :: "log_entry list"

record ('d, 'n, 'm) steps =
  collect_new_training_data :: "error + 'd"
  evaluate_current_models :: "'m \<Rightarrow> 'd \<Rightarrow> error + pydict"
  train_new_models :: "'d \<Rightarrow> error + 'n"
  evaluate_models :: "'n \<Rightarrow> 'd \<Rightarrow> error + pydict"
  deploy_new_models :: "'m \<Rightarrow> 'n \<Rightarrow> error + 'm"

text \<open>The body of the \<^verbatim>\<open>try\<close> block, after the first log record.\<close>

definition update_models_try ::
  "('d, 'n, 'm) steps \<Rightarrow> 'm manager \<Rightarrow> error + 'm manager" where
  "update_models_try ext self =
     bind (collect_new_training_data ext) (\<lambda>new_data.
     bind (evaluate_current_models ext (models self) new_data) (\<lambda>current_metrics.
     bind (train_new_models ext new_data) (\<lambda>new_models.
     bind (evaluate_models ext new_models new_data) (\<lambda>new_metrics.
     bind (should_update_models current_metrics new_metrics) (\<lambda>promote.
     if promote then
       bind (deploy_new_models ext (models self) new_models) (\<lambda>deployed.
       let v = current_model_version self + 0.1 in
       Inr (self\<lparr>models := deployed, current_model_version := v,
                  log := log self @ [InfoUpdated v]\<rparr>))
     else Inr self)))))"

text \<open>\<^verbatim>\<open>update_models\<close>: the lock is taken, the \<^verbatim>\<open>try\<close> block runs, \<^verbatim>\<open>except Exception\<close>
  logs what was raised, and leaving the \<^verbatim>\<open>async with\<close> block releases the lock.\<close>

definition update_models ::
  "('d, 'n, 'm) steps \<Rightarrow> 'm manager \<Rightarrow> error + 'm manager" where
  "update_models ext self =
     (let locked = self\<lparr>update_lock := True, log := log self @ [InfoUpdateStarted]\<rparr> in
      case update_models_try ext locked of
        Inl e \<Rightarrow> Inr (locked\<lparr>log := log locked @ [ErrorUpdate e], update_lock := False\<rparr>)
      | Inr done \<Rightarrow> Inr (done\<lparr>update_lock := False\<rparr>))"

text \<open>\<^verbatim>\<open>schedule_model_update\<close> loops for ever. Each wake-up reads the hour of the
  clock and meets the outside world of that moment; the function runs the iterations of a
  finite sequence of wake-ups, and is \<open>Inl\<close> when an iteration raised, which would end
  the loop.\<close>

fun schedule_model_update ::
  "(nat \<times> ('d, 'n, 'm) steps) list \<Rightarrow> 'm manager \<Rightarrow> error + 'm manager" where
  "schedule_model_update [] self = Inr self"
| "schedule_model_update ((current_hour, ext) # wakes) self =
     bind (if current_hour = 3 then update_models ext self else Inr self)
          (schedule_model_update wakes)"

section \<open>Concurrent callers of the update cycle\<close>

text \<open>
  Tasks of one event loop call \<^verbatim>\<open>update_models\<close> on the same manager. A task gives way
  only where the coroutine awaits: when it waits for the lock, and at the five awaited
  steps inside the \<^verbatim>\<open>async with\<close> block. The program counter of a task says where it is
  suspended: outside the coroutine, waiting for the lock, or at one of the five steps.
  The lock is the one the manager creates in \<^verbatim>\<open>__init__\<close>; \<open>locked\<close> is its state.
  Any waiting task may be woken at any time, which covers the order in which
  \<^verbatim>\<open>asyncio.Lock\<close> wakes its waiters; a task woken while the lock is held waits again.
\<close>

datatype pc =
    Idle
  | WaitingForLock
  | Collecting
  | EvaluatingCurrent
  | TrainingCandidate
  | EvaluatingCandidate
  | Deploying

fun in_cycle :: "pc \<Rightarrow> bool" where
  "in_cycle Idle = False"
| "in_cycle WaitingForLock = False"
| "in_cycle _ = True"

record loop_state =
  locked :: bool
  tasks :: "pc list"

text \<open>What the event loop can do next: a task calls \<^verbatim>\<open>update_models\<close>; a task waiting
  for the lock is woken; the step a task awaits returns (for \<^verbatim>\<open>evaluate_models\<close>, with
  the decision \<^verbatim>\<open>should_update_models\<close> then takes); the step a task awaits raises, or
  the decision does.\<close>

datatype event =
    Trigger nat
  | Wake nat
  | Returns nat bool
  | Raises nat

text \<open>\<^verbatim>\<open>async with self.update_lock\<close> on entry: a free lock is taken and the task runs
  to the first awaited step; otherwise the task waits.\<close>

definition acquire :: "nat \<Rightarrow> loop_state \<Rightarrow> loop_state" where
  "acquire i s =
     (if locked s then s\<lparr>tasks := (tasks s)[i := WaitingForLock]\<rparr>
      else s\<lparr>locked := True, tasks := (tasks s)[i := Collecting]\<rparr>)"

text \<open>Leaving the \<^verbatim>\<open>async with\<close> block, by the end of the \<^verbatim>\<open>try\<close> block or by its
  \<^verbatim>\<open>except\<close> clause: the lock is released and the coroutine returns.\<close>

definition release :: "nat \<Rightarrow> loop_state \<Rightarrow> loop_state" where
  "release i s = s\<lparr>locked := False, tasks := (tasks s)[i := Idle]\<rparr>"

definition goto :: "nat \<Rightarrow> pc \<Rightarrow> loop_state \<Rightarrow> loop_state" where
  "goto i p s = s\<lparr>tasks := (tasks s)[i := p]\<rparr>"

fun step :: "event \<Rightarrow> loop_state \<Rightarrow> loop_state" where
  "step (Trigger i) s =
     (if i < length (tasks s) \<and> tasks s ! i = Idle then acquire i s else s)"
| "step (Wake i) s =
     (if i < length (tasks s) \<and> tasks s ! i = WaitingForLock then acquire i s else s)"
| "step (Returns i promote) s =
     (if i < length (tasks s) then
        (case tasks s ! i of
           Collecting \<Rightarrow> goto i EvaluatingCurrent s
         | EvaluatingCurrent \<Rightarrow> goto i TrainingCandidate s
         | TrainingCandidate \<Rightarrow> goto i EvaluatingCandidate s
         | EvaluatingCandidate \<Rightarrow> if promote then goto i Deploying s else release i s
         | Deploying \<Rightarrow> release i s
         | _ \<Rightarrow> s)
      else s)"
| "step (Raises i) s =
     (if i < length (tasks s) \<and> in_cycle (tasks s ! i) then release i s else s)"

definition run :: "event list \<Rightarrow> loop_state \<Rightarrow> loop_state" where
  "run evs s = fold step evs s"

definition idle_tasks :: "nat \<Rightarrow> loop_state" where
  "idle_tasks n = \<lparr>locked = False, tasks = replicate n Idle\<rparr>"

definition cycles :: "loop_state \<Rightarrow> nat" where
  "cycles s = length (filter in_cycle (tasks s))"

definition lock_inv :: "loop_state \<Rightarrow> bool" where
  "lock_inv s = (cycles s = (if locked s then 1 else 0))"

section \<open>Example data\<close>

text \<open>The prediction of the specification's end-to-end example, and variants of it that
  fail one or several checks.\<close>

definition all_features :: pyval where
  "all_features = PDict [(''team_form'', PNum 1), (''historical_performance'', PNum 1),
     (''player_statistics'', PNum 1), (''weather_conditions'', PNum 1)]"

definition no_weather :: pyval where
  "no_weather = PDict [(''team_form'', PNum 1), (''historical_performance'', PNum 1),
     (''player_statistics'', PNum 1)]"

definition example_prediction :: "real \<Rightarrow> real \<Rightarrow> pyval \<Rightarrow> pyval \<Rightarrow> pyval \<Rightarrow> pydict" where
  "example_prediction c draw hs aws fs =
     [(''confidence'', PNum c),
      (''probabilities'', PDict [(''home'', PNum 0.5), (''draw'', PNum draw), (''away'', PNum 0.2)]),
      (''home_score'', hs),
      (''away_score'', aws),
      (''features'', fs)]"

definition accepted_example :: pydict where
  "accepted_example = example_prediction 0.8 0.35 (PNum 2) (PNum 1) all_features"

definition stamped_example :: "int \<Rightarrow> pydict" where
  "stamped_example t = accepted_example @ [(''timestamp'', PIso t)]"

text \<open>The service before any request, a prediction the first check rejects, the JSON
  text of a dictionary stamped at instant 0 (a timestamp field holding
  \<^verbatim>\<open>1970-01-01T00:00:00\<close>, between double quotes, which are the character
  \<open>0x22\<close>), a service whose store holds that text for match \<^verbatim>\<open>M1\<close> with the expiry six
  hours after instant 0, and the clocks of a call at a given instant.\<close>

definition empty_service :: service where
  "empty_service = \<lparr>redis = Map.empty, warnings = [], generated = []\<rparr>"

definition rejected_example :: pydict where
  "rejected_example = example_prediction 0.5 0.35 (PNum 2) (PNum 1) all_features"

definition stored_entry :: string where
  "stored_entry =
     ''{'' @ [CHR 0x22] @ ''timestamp'' @ [CHR 0x22] @ '': '' @ [CHR 0x22]
       @ ''1970-01-01T00:00:00'' @ [CHR 0x22] @ ''}''"

definition stored_service :: service where
  "stored_service =
     \<lparr>redis = [''prediction:M1'' \<mapsto> (21600000000, stored_entry)],
      warnings = [], generated = []\<rparr>"

definition clock_at :: "int \<Rightarrow> clock" where
  "clock_at t = \<lparr>process_now = t, server_now = t\<rparr>"

text \<open>A manager at version 1.0 with the lock free, and the steps of a cycle whose
  metrics are those of the specification's example.\<close>

definition manager0 :: "nat manager" where
  "manager0 = \<lparr>current_model_version = 1.0, models = 0, update_lock = False, log = []\<rparr>"

definition metrics :: "real \<Rightarrow> real \<Rightarrow> real \<Rightarrow> pydict" where
  "metrics a r l = [(''accuracy'', PNum a), (''rmse'', PNum r), (''log_loss'', PNum l)]"

definition steps0 :: "error + unit \<Rightarrow> real \<Rightarrow> (unit, nat, nat) steps" where
  "steps0 collected candidate_accuracy =
     \<lparr>collect_new_training_data = collected,
      evaluate_current_models = (\<lambda>m d. Inr (metrics 0.70 1.0 0.5)),
      train_new_models = (\<lambda>d. Inr 1),
      evaluate_models = (\<lambda>n d. Inr (metrics candidate_accuracy 0.95 0.47)),
      deploy_new_models = (\<lambda>m n. Inr n)\<rparr>"

text \<open>Two tasks call \<^verbatim>\<open>update_models\<close>; the first gets the lock and reaches the
  training, the second waits and is woken in vain.\<close>

definition two_callers :: "event list" where
  "two_callers = [Trigger 0, Trigger 1, Returns 0 True, Returns 0 True, Wake 1]"

section \<open>Basic facts\<close>

lemma bind_Inr [simp]: "bind (Inr x) f = f x"
  by (simp add: bind_def)

lemma bind_Inl [simp]: "bind (Inl e) f = Inl e"
  by (simp add: bind_def)

lemma bind_eq_Inr: "bind r f = Inr y \<longleftrightarrow> (\<exists>x. r = Inr x \<and> f x = Inr y)"
  by (cases r) (simp_all add: bind_def)

lemma dict_get_Some: "map_of d k = Some v \<Longrightarrow> dict_get d k = Inr v"
  by (simp add: dict_get_def)

lemma dict_get_None: "map_of d k = None \<Longrightarrow> dict_get d k = Inl (KeyError k)"
  by (simp add: dict_get_def)

lemma map_of_dict_set:
  "map_of (dict_set d k v) k' = (if k' = k then Some v else map_of d k')"
  by (induction d) auto

text \<open>The five messages are pairwise different, so a message identifies its check.\<close>

lemma msgs_distinct:
  "distinct [msg_low_confidence, msg_inconsistent_probabilities, msg_score_out_of_range,
     msg_missing_features, msg_ok]"
  by (simp add: msg_low_confidence_def msg_inconsistent_probabilities_def
      msg_score_out_of_range_def msg_missing_features_def msg_ok_def e_acute_def e_grave_def)

section \<open>The validator\<close>

lemma py_sum_nums: "py_sum (map PNum xs) acc = Inr (acc + sum_list xs)"
  by (induction xs arbitrary: acc) simp_all

lemma all_in_dict: "all_in ks (PDict d) = Inr (set ks \<subseteq> fst ` set d)"
  by (induction ks) (auto simp: map_of_eq_None_iff)

lemma validate_input_features_dict:
  "validate_input_features (PDict fs) =
     Inr ({''team_form'', ''historical_performance'', ''player_statistics'',
           ''weather_conditions''} \<subseteq> fst ` set fs)"
proof -
  have "set required_features = {''team_form'', ''historical_performance'',
      ''player_statistics'', ''weather_conditions''}"
    by (simp add: required_features_def)
  then show ?thesis
    by (simp only: validate_input_features_def all_in_dict)
qed

lemma validate_input_features_missing:
  assumes "k \<in> set required_features" and "k \<notin> fst ` set fs"
  shows "validate_input_features (PDict fs) = Inr False"
  using assms by (auto simp only: validate_input_features_def all_in_dict)

lemma probability_sum_nums:
  assumes "map_of p ''probabilities'' = Some (PDict ps)" and "map snd ps = map PNum xs"
  shows "probability_sum p = Inr (sum_list xs)"
  using assms by (simp add: probability_sum_def dict_get_Some py_sum_nums)

lemma score_too_high_nums:
  assumes "map_of p ''home_score'' = Some (PNum h)" and "map_of p ''away_score'' = Some (PNum a)"
  shows "score_too_high p = Inr (\<not> (h \<le> 10 \<and> a \<le> 10))"
  using assms by (auto simp: score_too_high_def dict_get_Some max_goals_def)

text \<open>On a prediction that carries every field the validator reads, with numbers where it
  compares, the result is decided by the four checks in their order.\<close>

lemma validate_prediction_wf:
  assumes "map_of p ''confidence'' = Some (PNum c)"
    and "map_of p ''probabilities'' = Some (PDict ps)"
    and "map snd ps = map PNum xs"
    and "map_of p ''home_score'' = Some (PNum h)"
    and "map_of p ''away_score'' = Some (PNum a)"
    and "map_of p ''features'' = Some (PDict fs)"
  shows "validate_prediction p =
     Inr (if \<not> c \<ge> 0.6 then (False, msg_low_confidence)
          else if \<not> sum_list xs \<le> 1.1 then (False, msg_inconsistent_probabilities)
          else if \<not> (h \<le> 10 \<and> a \<le> 10) then (False, msg_score_out_of_range)
          else if \<not> {''team_form'', ''historical_performance'', ''player_statistics'',
                      ''weather_conditions''} \<subseteq> fst ` set fs
            then (False, msg_missing_features)
          else (True, msg_ok))"
proof -
  have s: "probability_sum p = Inr (sum_list xs)"
    using assms(2,3) by (rule probability_sum_nums)
  have h: "score_too_high p = Inr (\<not> (h \<le> 10 \<and> a \<le> 10))"
    using assms(4,5) by (rule score_too_high_nums)
  show ?thesis
    unfolding validate_prediction_def
    by (simp only: dict_get_Some [OF assms(1)] dict_get_Some [OF assms(6)] s h
        validate_input_features_dict bind_Inr py_lt.simps confidence_min_def
        probability_sum_max_def not_le not_less if_distrib [of Inr] split: if_splits)
qed

lemma validate_accepts_features:
  assumes "validate_prediction p = Inr (True, m)"
  shows "\<exists>fs. dict_get p ''features'' = Inr fs \<and> validate_input_features fs = Inr True"
  using assms unfolding validate_prediction_def
  by (auto simp: bind_eq_Inr split: if_splits)

lemma example_prediction_fields:
  "map_of (example_prediction c d hs aws fs) ''confidence'' = Some (PNum c)"
  "map_of (example_prediction c d hs aws fs) ''probabilities'' =
     Some (PDict [(''home'', PNum 0.5), (''draw'', PNum d), (''away'', PNum 0.2)])"
  "map_of (example_prediction c d hs aws fs) ''home_score'' = Some hs"
  "map_of (example_prediction c d hs aws fs) ''away_score'' = Some aws"
  "map_of (example_prediction c d hs aws fs) ''features'' = Some fs"
  by (simp_all add: example_prediction_def)

section \<open>The promotion decision\<close>

text \<open>
  \<^bold>\<open>C2\<close>. For two metric snapshots that hold numbers under \<^verbatim>\<open>accuracy\<close>, \<^verbatim>\<open>rmse\<close> and
  \<^verbatim>\<open>log_loss\<close>, \<^verbatim>\<open>should_update_models\<close> returns true exactly when the three
  differences candidate accuracy minus current accuracy, current rmse minus candidate rmse
  and current log loss minus candidate log loss are all strictly above 0.02; so a
  difference of zero or less in one metric gives false whatever the other two are.
\<close>

theorem promotion_gating:
  assumes "map_of current_metrics ''accuracy'' = Some (PNum ca)"
    and "map_of current_metrics ''rmse'' = Some (PNum cr)"
    and "map_of current_metrics ''log_loss'' = Some (PNum cl)"
    and "map_of new_metrics ''accuracy'' = Some (PNum na)"
    and "map_of new_metrics ''rmse'' = Some (PNum nr)"
    and "map_of new_metrics ''log_loss'' = Some (PNum nl)"
  shows "should_update_models current_metrics new_metrics =
           Inr (na - ca > 0.02 \<and> cr - nr > 0.02 \<and> cl - nl > 0.02)
    \<and> (na - ca \<le> 0 \<or> cr - nr \<le> 0 \<or> cl - nl \<le> 0
         \<longrightarrow> should_update_models current_metrics new_metrics = Inr False)"
  using assms
  by (auto simp: should_update_models_def metrics_comparison_def dict_get_Some
      improvement_threshold_def)

theorem promotion_gating_witness:
  "should_update_models
     [(''accuracy'', PNum 0.70), (''rmse'', PNum 1.0), (''log_loss'', PNum 0.5)]
     [(''accuracy'', PNum 0.73), (''rmse'', PNum 0.95), (''log_loss'', PNum 0.47)] = Inr True
   \<and> should_update_models
     [(''accuracy'', PNum 0.70), (''rmse'', PNum 1.0), (''log_loss'', PNum 0.5)]
     [(''accuracy'', PNum 0.71), (''rmse'', PNum 0.95), (''log_loss'', PNum 0.47)] = Inr False
   \<and> should_update_models
     [(''accuracy'', PNum 0.70), (''rmse'', PNum 1.0), (''log_loss'', PNum 0.5)]
     [(''accuracy'', PNum 0.95), (''rmse'', PNum 0.2), (''log_loss'', PNum 0.5)] = Inr False"
  using promotion_gating [of "[(''accuracy'', PNum 0.70), (''rmse'', PNum 1.0), (''log_loss'', PNum 0.5)]"
      "0.70" "1.0" "0.5" "[(''accuracy'', PNum 0.73), (''rmse'', PNum 0.95), (''log_loss'', PNum 0.47)]"
      "0.73" "0.95" "0.47"]
    promotion_gating [of "[(''accuracy'', PNum 0.70), (''rmse'', PNum 1.0), (''log_loss'', PNum 0.5)]"
      "0.70" "1.0" "0.5" "[(''accuracy'', PNum 0.71), (''rmse'', PNum 0.95), (''log_loss'', PNum 0.47)]"
      "0.71" "0.95" "0.47"]
    promotion_gating [of "[(''accuracy'', PNum 0.70), (''rmse'', PNum 1.0), (''log_loss'', PNum 0.5)]"
      "0.70" "1.0" "0.5" "[(''accuracy'', PNum 0.95), (''rmse'', PNum 0.2), (''log_loss'', PNum 0.5)]"
      "0.95" "0.2" "0.5"]
  by simp

section \<open>The checks of the validator\<close>

text \<open>
  \<^bold>\<open>C5\<close>. On a prediction with a numeric confidence, a dictionary of numeric
  probabilities, numeric scores and a dictionary of features, \<^verbatim>\<open>validate_prediction\<close>
  returns one outcome, decided by four checks in this order, the first that fails giving
  the reason: confidence at least 0.6, else "Confiance insuffisante"; sum of the
  probabilities at most 1.1, else "Probabilites incoherentes"; both scores at most 10, else
  "Scores predits anormalement eleves"; the four required feature names among the keys of
  the features, else "Donnees d'entree invalides ou incompletes". The prediction is
  accepted exactly when all four pass. The function returns its outcome and nothing else.
\<close>

theorem validate_checks_in_order:
  assumes "map_of p ''confidence'' = Some (PNum c)"
    and "map_of p ''probabilities'' = Some (PDict ps)"
    and "map snd ps = map PNum xs"
    and "map_of p ''home_score'' = Some (PNum h)"
    and "map_of p ''away_score'' = Some (PNum a)"
    and "map_of p ''features'' = Some (PDict fs)"
  shows "validate_prediction p =
     Inr (if \<not> c \<ge> 0.6 then (False, msg_low_confidence)
          else if \<not> sum_list xs \<le> 1.1 then (False, msg_inconsistent_probabilities)
          else if \<not> (h \<le> 10 \<and> a \<le> 10) then (False, msg_score_out_of_range)
          else if \<not> {''team_form'', ''historical_performance'', ''player_statistics'',
                      ''weather_conditions''} \<subseteq> fst ` set fs
            then (False, msg_missing_features)
          else (True, msg_ok))"
  using assms by (rule validate_prediction_wf)

theorem validate_checks_in_order_witness:
  "validate_prediction (example_prediction 0.8 0.35 (PNum 2) (PNum 1) all_features)
     = Inr (True, msg_ok)
   \<and> validate_prediction (example_prediction 0.5 0.9 (PNum 11) (PNum 1) no_weather)
     = Inr (False, msg_low_confidence)
   \<and> validate_prediction (example_prediction 0.8 0.9 (PNum 11) (PNum 1) no_weather)
     = Inr (False, msg_inconsistent_probabilities)
   \<and> validate_prediction (example_prediction 0.8 0.35 (PNum 2) (PNum 11) no_weather)
     = Inr (False, msg_score_out_of_range)
   \<and> validate_prediction (example_prediction 0.8 0.35 (PNum 2) (PNum 1) no_weather)
     = Inr (False, msg_missing_features)"
  using
    validate_checks_in_order [of "example_prediction 0.8 0.35 (PNum 2) (PNum 1) all_features"
      "0.8" "[(''home'', PNum 0.5), (''draw'', PNum 0.35), (''away'', PNum 0.2)]"
      "[0.5, 0.35, 0.2]" 2 1
      "[(''team_form'', PNum 1), (''historical_performance'', PNum 1),
        (''player_statistics'', PNum 1), (''weather_conditions'', PNum 1)]"]
    validate_checks_in_order [of "example_prediction 0.5 0.9 (PNum 11) (PNum 1) no_weather"
      "0.5" "[(''home'', PNum 0.5), (''draw'', PNum 0.9), (''away'', PNum 0.2)]"
      "[0.5, 0.9, 0.2]" 11 1
      "[(''team_form'', PNum 1), (''historical_performance'', PNum 1),
        (''player_statistics'', PNum 1)]"]
    validate_checks_in_order [of "example_prediction 0.8 0.9 (PNum 11) (PNum 1) no_weather"
      "0.8" "[(''home'', PNum 0.5), (''draw'', PNum 0.9), (''away'', PNum 0.2)]"
      "[0.5, 0.9, 0.2]" 11 1
      "[(''team_form'', PNum 1), (''historical_performance'', PNum 1),
        (''player_statistics'', PNum 1)]"]
    validate_checks_in_order [of "example_prediction 0.8 0.35 (PNum 2) (PNum 11) no_weather"
      "0.8" "[(''home'', PNum 0.5), (''draw'', PNum 0.35), (''away'', PNum 0.2)]"
      "[0.5, 0.35, 0.2]" 2 11
      "[(''team_form'', PNum 1), (''historical_performance'', PNum 1),
        (''player_statistics'', PNum 1)]"]
    validate_checks_in_order [of "example_prediction 0.8 0.35 (PNum 2) (PNum 1) no_weather"
      "0.8" "[(''home'', PNum 0.5), (''draw'', PNum 0.35), (''away'', PNum 0.2)]"
      "[0.5, 0.35, 0.2]" 2 1
      "[(''team_form'', PNum 1), (''historical_performance'', PNum 1),
        (''player_statistics'', PNum 1)]"]
  by (simp add: example_prediction_fields all_features_def no_weather_def)

text \<open>
  \<^bold>\<open>C8\<close>, as stated, fails: a prediction whose features lack
  \<^verbatim>\<open>weather_conditions\<close> and whose confidence is 0.5 is rejected by the first check, with
  "Confiance insuffisante", not with the message of the features check.
\<close>

theorem missing_weather_counterexample:
  "validate_prediction (example_prediction 0.5 0.3 (PNum 2) (PNum 1) no_weather)
     = Inr (False, msg_low_confidence)
   \<and> validate_prediction (example_prediction 0.5 0.3 (PNum 2) (PNum 1) no_weather)
     \<noteq> Inr (False, msg_missing_features)"
  by (simp add: validate_prediction_def dict_get_def confidence_min_def example_prediction_def
      msg_low_confidence_def msg_missing_features_def)

text \<open>
  \<^bold>\<open>C8\<close>, amended. A prediction whose features dictionary lacks
  \<^verbatim>\<open>weather_conditions\<close> is never accepted, whatever its other fields. When its
  confidence, probabilities and scores are numbers, it is rejected with the reason of the
  first check that fails, in the order confidence, probabilities, scores, features: so with
  "Donnees d'entree invalides ou incompletes" exactly when the three earlier checks pass
  (confidence at least 0.6, probabilities summing to at most 1.1, both scores at most 10).
\<close>

theorem missing_weather:
  assumes "map_of p ''features'' = Some (PDict fs)"
    and "''weather_conditions'' \<notin> fst ` set fs"
  shows "(\<forall>m. validate_prediction p \<noteq> Inr (True, m))
    \<and> (\<forall>c ps xs h a.
          map_of p ''confidence'' = Some (PNum c)
          \<and> map_of p ''probabilities'' = Some (PDict ps) \<and> map snd ps = map PNum xs
          \<and> map_of p ''home_score'' = Some (PNum h)
          \<and> map_of p ''away_score'' = Some (PNum a)
          \<longrightarrow> validate_prediction p =
                Inr (False,
                     if \<not> c \<ge> 0.6 then msg_low_confidence
                     else if \<not> sum_list xs \<le> 1.1 then msg_inconsistent_probabilities
                     else if \<not> (h \<le> 10 \<and> a \<le> 10) then msg_score_out_of_range
                     else msg_missing_features)
              \<and> (validate_prediction p = Inr (False, msg_missing_features)
                   \<longleftrightarrow> c \<ge> 0.6 \<and> sum_list xs \<le> 1.1 \<and> h \<le> 10 \<and> a \<le> 10))"
proof -
  have w: "''weather_conditions'' \<in> set required_features"
    by (simp add: required_features_def)
  have f: "validate_input_features (PDict fs) = Inr False"
    using w assms(2) by (rule validate_input_features_missing)
  have never: "validate_prediction p \<noteq> Inr (True, m)" for m
  proof
    assume "validate_prediction p = Inr (True, m)"
    then obtain fs' where "dict_get p ''features'' = Inr fs'"
      and "validate_input_features fs' = Inr True"
      using validate_accepts_features by blast
    with assms(1) f show False
      by (simp add: dict_get_Some)
  qed
  have rejected: "validate_prediction p =
        Inr (False,
             if \<not> c \<ge> 0.6 then msg_low_confidence
             else if \<not> sum_list xs \<le> 1.1 then msg_inconsistent_probabilities
             else if \<not> (h \<le> 10 \<and> a \<le> 10) then msg_score_out_of_range
             else msg_missing_features)"
    if "map_of p ''confidence'' = Some (PNum c)"
      "map_of p ''probabilities'' = Some (PDict ps)" "map snd ps = map PNum xs"
      "map_of p ''home_score'' = Some (PNum h)"
      "map_of p ''away_score'' = Some (PNum a)"
    for c ps xs h a
    using validate_prediction_wf [OF that assms(1)] assms(2) by simp
  have exactly: "validate_prediction p = Inr (False, msg_missing_features)
        \<longleftrightarrow> c \<ge> 0.6 \<and> sum_list xs \<le> 1.1 \<and> h \<le> 10 \<and> a \<le> 10"
    if "map_of p ''confidence'' = Some (PNum c)"
      "map_of p ''probabilities'' = Some (PDict ps)" "map snd ps = map PNum xs"
      "map_of p ''home_score'' = Some (PNum h)"
      "map_of p ''away_score'' = Some (PNum a)"
    for c ps xs h a
    using rejected [OF that] msgs_distinct by (auto split: if_splits)
  from never rejected exactly show ?thesis
    by blast
qed

theorem missing_weather_witness:
  "validate_prediction (example_prediction 0.8 0.35 (PNum 2) (PNum 1) no_weather)
     = Inr (False, msg_missing_features)
   \<and> validate_prediction (example_prediction 0.8 0.35 (PNum 2) (PNum 1) no_weather)
     \<noteq> Inr (True, msg_ok)
   \<and> validate_prediction (example_prediction 0.8 0.35 (PNum 2) (PNum 11) no_weather)
     = Inr (False, msg_score_out_of_range)"
proof -
  let ?p = "example_prediction 0.8 0.35 (PNum 2) (PNum 1) no_weather"
  let ?q = "example_prediction 0.8 0.35 (PNum 2) (PNum 11) no_weather"
  let ?ps = "[(''home'', PNum 0.5), (''draw'', PNum 0.35), (''away'', PNum 0.2)]"
  let ?fs = "[(''team_form'', PNum 1), (''historical_performance'', PNum 1),
     (''player_statistics'', PNum 1)]"
  have fp: "map_of ?p ''features'' = Some (PDict ?fs)"
    and fq: "map_of ?q ''features'' = Some (PDict ?fs)"
    by (simp_all add: example_prediction_fields no_weather_def)
  have w: "''weather_conditions'' \<notin> fst ` set ?fs"
    by simp
  have pre: "map_of ?p ''confidence'' = Some (PNum 0.8)
      \<and> map_of ?p ''probabilities'' = Some (PDict ?ps)
      \<and> map snd ?ps = map PNum [0.5, 0.35, 0.2]
      \<and> map_of ?p ''home_score'' = Some (PNum 2)
      \<and> map_of ?p ''away_score'' = Some (PNum 1)"
    by (simp add: example_prediction_fields)
  have pre': "map_of ?q ''confidence'' = Some (PNum 0.8)
      \<and> map_of ?q ''probabilities'' = Some (PDict ?ps)
      \<and> map snd ?ps = map PNum [0.5, 0.35, 0.2]
      \<and> map_of ?q ''home_score'' = Some (PNum 2)
      \<and> map_of ?q ''away_score'' = Some (PNum 11)"
    by (simp add: example_prediction_fields)
  have a: "validate_prediction ?p = Inr (False, msg_missing_features)
      \<and> validate_prediction ?p \<noteq> Inr (True, msg_ok)"
    using missing_weather [OF fp w] pre
    by (elim conjE allE [of _ "0.8"] allE [of _ ?ps] allE [of _ "[0.5, 0.35, 0.2]"]
        allE [of _ 2] allE [of _ 1] allE [of _ msg_ok]) simp
  have b: "validate_prediction ?q = Inr (False, msg_score_out_of_range)"
    using missing_weather [OF fq w] pre'
    by (elim conjE allE [of _ "0.8"] allE [of _ ?ps] allE [of _ "[0.5, 0.35, 0.2]"]
        allE [of _ 2] allE [of _ 11]) simp
  from a b show ?thesis
    by simp
qed

text \<open>
  \<^bold>\<open>C10\<close>, as stated, fails: the fallback prediction has null scores and lacks
  \<^verbatim>\<open>probabilities\<close> and \<^verbatim>\<open>features\<close>, and \<^verbatim>\<open>validate_prediction\<close> does not raise
  on it. Its confidence is 0, so the first check rejects it before any other field is
  read.
\<close>

theorem validate_fallback_counterexample:
  "validate_prediction (get_fallback_prediction ''M1'') = Inr (False, msg_low_confidence)"
  by (simp add: validate_prediction_def get_fallback_prediction_def dict_get_def
      confidence_min_def)

text \<open>
  \<^bold>\<open>C10\<close>, amended. \<^verbatim>\<open>validate_prediction\<close> reads the fields in the order
  confidence, probabilities, home score, away score, features, and stops at the first
  check that fails. It raises \<^verbatim>\<open>KeyError\<close> on a missing key and \<^verbatim>\<open>TypeError\<close> on a
  null score or null features only when every check before that field passes; a field
  behind a failing check is not read (the away score is not read either when the home score
  is above 10). With all five keys present, numeric confidence, probabilities and scores,
  and a dictionary of features, it returns an outcome.
\<close>

theorem validate_raises_when_reached:
  "(map_of p ''confidence'' = None \<longrightarrow>
      validate_prediction p = Inl (KeyError ''confidence''))
   \<and> (map_of p ''confidence'' = Some (PNum c) \<and> c < 0.6 \<longrightarrow>
      validate_prediction p = Inr (False, msg_low_confidence))
   \<and> (map_of p ''confidence'' = Some (PNum c) \<and> c \<ge> 0.6 \<longrightarrow>
      (map_of p ''probabilities'' = None \<longrightarrow>
         validate_prediction p = Inl (KeyError ''probabilities''))
      \<and> (map_of p ''probabilities'' = Some (PDict ps) \<and> map snd ps = map PNum xs
           \<and> sum_list xs > 1.1 \<longrightarrow>
         validate_prediction p = Inr (False, msg_inconsistent_probabilities))
      \<and> (map_of p ''probabilities'' = Some (PDict ps) \<and> map snd ps = map PNum xs
           \<and> sum_list xs \<le> 1.1 \<longrightarrow>
         (map_of p ''home_score'' = None \<longrightarrow>
            validate_prediction p = Inl (KeyError ''home_score''))
         \<and> (map_of p ''home_score'' = Some PNone \<longrightarrow>
            validate_prediction p = Inl TypeError)
         \<and> (map_of p ''home_score'' = Some (PNum h) \<and> h > 10 \<longrightarrow>
            validate_prediction p = Inr (False, msg_score_out_of_range))
         \<and> (map_of p ''home_score'' = Some (PNum h) \<and> h \<le> 10 \<longrightarrow>
            (map_of p ''away_score'' = None \<longrightarrow>
               validate_prediction p = Inl (KeyError ''away_score''))
            \<and> (map_of p ''away_score'' = Some PNone \<longrightarrow>
               validate_prediction p = Inl TypeError)
            \<and> (map_of p ''away_score'' = Some (PNum a) \<and> a > 10 \<longrightarrow>
               validate_prediction p = Inr (False, msg_score_out_of_range))
            \<and> (map_of p ''away_score'' = Some (PNum a) \<and> a \<le> 10 \<longrightarrow>
               (map_of p ''features'' = None \<longrightarrow>
                  validate_prediction p = Inl (KeyError ''features''))
               \<and> (map_of p ''features'' = Some PNone \<longrightarrow>
                  validate_prediction p = Inl TypeError)
               \<and> (map_of p ''features'' = Some (PDict fs) \<longrightarrow>
                  (\<exists>accepted message. validate_prediction p = Inr (accepted, message)))))))
   \<and> (map_of p ''confidence'' = Some (PNum c)
       \<and> map_of p ''probabilities'' = Some (PDict ps) \<and> map snd ps = map PNum xs
       \<and> map_of p ''home_score'' = Some (PNum h)
       \<and> map_of p ''away_score'' = Some (PNum a)
       \<and> map_of p ''features'' = Some (PDict fs) \<longrightarrow>
      (\<exists>accepted message. validate_prediction p = Inr (accepted, message)))"
proof -
  have total: "\<exists>accepted message. validate_prediction p = Inr (accepted, message)"
    if "map_of p ''confidence'' = Some (PNum c)"
      "map_of p ''probabilities'' = Some (PDict ps)" "map snd ps = map PNum xs"
      "map_of p ''home_score'' = Some (PNum h)"
      "map_of p ''away_score'' = Some (PNum a)"
      "map_of p ''features'' = Some (PDict fs)"
    using validate_prediction_wf [OF that] by (auto split: if_splits)
  have sum: "probability_sum p = Inr (sum_list xs)"
    if "map_of p ''probabilities'' = Some (PDict ps)" "map snd ps = map PNum xs"
    using that by (rule probability_sum_nums)
  have nosum: "probability_sum p = Inl (KeyError ''probabilities'')"
    if "map_of p ''probabilities'' = None"
    using that by (simp add: probability_sum_def dict_get_None)
  have nofeatures: "validate_input_features PNone = Inl TypeError"
    by (simp add: validate_input_features_def required_features_def)
  have tree: "(map_of p ''confidence'' = None \<longrightarrow>
      validate_prediction p = Inl (KeyError ''confidence''))
   \<and> (map_of p ''confidence'' = Some (PNum c) \<and> c < 0.6 \<longrightarrow>
      validate_prediction p = Inr (False, msg_low_confidence))
   \<and> (map_of p ''confidence'' = Some (PNum c) \<and> c \<ge> 0.6 \<longrightarrow>
      (map_of p ''probabilities'' = None \<longrightarrow>
         validate_prediction p = Inl (KeyError ''probabilities''))
      \<and> (map_of p ''probabilities'' = Some (PDict ps) \<and> map snd ps = map PNum xs
           \<and> sum_list xs > 1.1 \<longrightarrow>
         validate_prediction p = Inr (False, msg_inconsistent_probabilities))
      \<and> (map_of p ''probabilities'' = Some (PDict ps) \<and> map snd ps = map PNum xs
           \<and> sum_list xs \<le> 1.1 \<longrightarrow>
         (map_of p ''home_score'' = None \<longrightarrow>
            validate_prediction p = Inl (KeyError ''home_score''))
         \<and> (map_of p ''home_score'' = Some PNone \<longrightarrow>
            validate_prediction p = Inl TypeError)
         \<and> (map_of p ''home_score'' = Some (PNum h) \<and> h > 10 \<longrightarrow>
            validate_prediction p = Inr (False, msg_score_out_of_range))
         \<and> (map_of p ''home_score'' = Some (PNum h) \<and> h \<le> 10 \<longrightarrow>
            (map_of p ''away_score'' = None \<longrightarrow>
               validate_prediction p = Inl (KeyError ''away_score''))
            \<and> (map_of p ''away_score'' = Some PNone \<longrightarrow>
               validate_prediction p = Inl TypeError)
            \<and> (map_of p ''away_score'' = Some (PNum a) \<and> a > 10 \<longrightarrow>
               validate_prediction p = Inr (False, msg_score_out_of_range))
            \<and> (map_of p ''away_score'' = Some (PNum a) \<and> a \<le> 10 \<longrightarrow>
               (map_of p ''features'' = None \<longrightarrow>
                  validate_prediction p = Inl (KeyError ''features''))
               \<and> (map_of p ''features'' = Some PNone \<longrightarrow>
                  validate_prediction p = Inl TypeError)
               \<and> (map_of p ''features'' = Some (PDict fs) \<longrightarrow>
                  (\<exists>accepted message. validate_prediction p = Inr (accepted, message)))))))"
    unfolding validate_prediction_def
    by (auto simp: dict_get_Some dict_get_None sum nosum nofeatures score_too_high_def
        validate_input_features_dict confidence_min_def probability_sum_max_def max_goals_def)
  have typed: "map_of p ''confidence'' = Some (PNum c)
       \<and> map_of p ''probabilities'' = Some (PDict ps) \<and> map snd ps = map PNum xs
       \<and> map_of p ''home_score'' = Some (PNum h)
       \<and> map_of p ''away_score'' = Some (PNum a)
       \<and> map_of p ''features'' = Some (PDict fs) \<longrightarrow>
      (\<exists>accepted message. validate_prediction p = Inr (accepted, message))"
    using total by blast
  from tree have t1: "map_of p ''confidence'' = None \<longrightarrow>
      validate_prediction p = Inl (KeyError ''confidence'')"
    by (rule conjunct1)
  from tree have t2: "map_of p ''confidence'' = Some (PNum c) \<and> c < 0.6 \<longrightarrow>
      validate_prediction p = Inr (False, msg_low_confidence)"
    by (rule conjunct2 [THEN conjunct1])
  note t3 = tree [THEN conjunct2, THEN conjunct2]
  show ?thesis
    by (rule conjI [OF t1 conjI [OF t2 conjI [OF t3 typed]]])
qed

theorem validate_raises_when_reached_witness:
  "validate_prediction (example_prediction 0.8 0.35 PNone PNone all_features) = Inl TypeError
   \<and> validate_prediction (example_prediction 0.8 0.35 (PNum 2) PNone all_features)
       = Inl TypeError
   \<and> validate_prediction (example_prediction 0.8 0.35 (PNum 11) PNone all_features)
       = Inr (False, msg_score_out_of_range)
   \<and> validate_prediction (example_prediction 0.5 0.35 PNone PNone all_features)
       = Inr (False, msg_low_confidence)
   \<and> validate_prediction (example_prediction 0.8 0.35 (PNum 2) (PNum 1) PNone) = Inl TypeError
   \<and> validate_prediction [(''confidence'', PNum 0.8)] = Inl (KeyError ''probabilities'')
   \<and> validate_prediction [] = Inl (KeyError ''confidence'')
   \<and> (\<exists>accepted message.
        validate_prediction (example_prediction 0.8 0.35 (PNum 2) (PNum 1) all_features)
          = Inr (accepted, message))"
proof -
  let ?ps = "[(''home'', PNum 0.5), (''draw'', PNum 0.35), (''away'', PNum 0.2)]"
  let ?xs = "[0.5, 0.35, 0.2 :: real]"
  let ?fs = "[(''team_form'', PNum 1), (''historical_performance'', PNum 1),
     (''player_statistics'', PNum 1), (''weather_conditions'', PNum 1)]"
  show ?thesis
    using
      validate_raises_when_reached
        [of "example_prediction 0.8 0.35 PNone PNone all_features" "0.8" ?ps ?xs 2 1 ?fs]
      validate_raises_when_reached
        [of "example_prediction 0.8 0.35 (PNum 2) PNone all_features" "0.8" ?ps ?xs 2 1 ?fs]
      validate_raises_when_reached
        [of "example_prediction 0.8 0.35 (PNum 11) PNone all_features" "0.8" ?ps ?xs 11 1 ?fs]
      validate_raises_when_reached
        [of "example_prediction 0.5 0.35 PNone PNone all_features" "0.5" ?ps ?xs 2 1 ?fs]
      validate_raises_when_reached
        [of "example_prediction 0.8 0.35 (PNum 2) (PNum 1) PNone" "0.8" ?ps ?xs 2 1 ?fs]
      validate_raises_when_reached [of "[(''confidence'', PNum 0.8)]" "0.8" ?ps ?xs 2 1 ?fs]
      validate_raises_when_reached [of "[]" "0.8" ?ps ?xs 2 1 ?fs]
      validate_raises_when_reached
        [of "example_prediction 0.8 0.35 (PNum 2) (PNum 1) all_features" "0.8" ?ps ?xs 2 1 ?fs]
    by (simp add: example_prediction_fields all_features_def)
qed

section \<open>The cache\<close>

lemma cache_prediction_raises:
  "cache_prediction r clk m p =
     (Inl (NameError ''json''), dict_set p ''timestamp'' (PIso (process_now clk)))"
  by (simp add: cache_prediction_def json_dumps_def Let_def)

lemma cache_accepted_example:
  "snd (cache_prediction r clk m accepted_example) = stamped_example (process_now clk)"
  by (simp add: cache_prediction_raises accepted_example_def stamped_example_def
      example_prediction_def)

lemma get_cached_absent:
  "redis_get r (server_now clk) (prediction_key m) = None \<Longrightarrow>
     get_cached_prediction r clk m = Inr None"
  by (simp add: get_cached_prediction_def)

lemma get_cached_found:
  assumes "redis_get r (server_now clk) (prediction_key m) = Some data" and "data \<noteq> []"
  shows "get_cached_prediction r clk m = Inl (NameError ''json'')"
  using assms by (simp add: get_cached_prediction_def json_loads_def)

lemma get_cached_empty:
  "redis_get r (server_now clk) (prediction_key m) = Some [] \<Longrightarrow>
     get_cached_prediction r clk m = Inr None"
  by (simp add: get_cached_prediction_def)

text \<open>A read never returns a prediction.\<close>

lemma get_cached_never_hit: "get_cached_prediction r clk m \<noteq> Inr (Some d)"
proof (cases "redis_get r (server_now clk) (prediction_key m)")
  case None
  then show ?thesis by (simp add: get_cached_absent)
next
  case (Some data)
  then show ?thesis
    by (cases "data = []") (simp_all add: get_cached_empty get_cached_found)
qed

text \<open>A miss stays a miss as the server's clock advances, as long as nothing is stored.\<close>

lemma redis_get_expired:
  assumes "redis_get r t key = None" and "t \<le> t'"
  shows "redis_get r t' key = None"
  using assms by (auto simp: redis_get_def split: option.splits if_splits)

lemma redis_get_later:
  assumes "redis_get r t key = Some data" and "t \<le> t'"
  shows "redis_get r t' key = None \<or> redis_get r t' key = Some data"
  using assms by (auto simp: redis_get_def split: option.splits if_splits)

lemma get_cached_miss_mono:
  assumes "get_cached_prediction r clk m = Inr None"
    and "server_now clk \<le> server_now clk'"
  shows "get_cached_prediction r clk' m = Inr None"
proof (cases "redis_get r (server_now clk) (prediction_key m)")
  case None
  then have "redis_get r (server_now clk') (prediction_key m) = None"
    using assms(2) by (rule redis_get_expired)
  then show ?thesis by (rule get_cached_absent)
next
  case (Some data)
  have "data = []"
  proof (rule ccontr)
    assume "data \<noteq> []"
    with Some have "get_cached_prediction r clk m = Inl (NameError ''json'')"
      by (rule get_cached_found)
    with assms(1) show False by simp
  qed
  with Some assms(2) redis_get_later [of r "server_now clk" "prediction_key m" data
      "server_now clk'"]
  show ?thesis
    by (auto simp: get_cached_absent get_cached_empty)
qed

section \<open>Requests\<close>

lemma get_prediction_miss:
  assumes "get_cached_prediction (redis s) clk_get m = Inr None"
  shows "get_prediction generate clk_get clk_set m s =
     generate_and_validate generate clk_set m s"
  using assms by (simp add: get_prediction_def)

lemma get_prediction_raised:
  assumes "get_cached_prediction (redis s) clk_get m = Inl e"
  shows "get_prediction generate clk_get clk_set m s = (Inl e, s)"
  using assms by (simp add: get_prediction_def)

lemma generate_and_validate_rejected:
  assumes "generate m = Inr p" and "validate_prediction p = Inr (False, reason)"
  shows "generate_and_validate generate clk_set m s =
     (Inr (get_fallback_prediction m),
      s\<lparr>generated := generated s @ [m],
        warnings := warnings s @ [WarningInvalid m reason]\<rparr>)"
  using assms by (simp add: generate_and_validate_def)

lemma generate_and_validate_accepted:
  assumes "generate m = Inr p" and "validate_prediction p = Inr (True, message)"
  shows "generate_and_validate generate clk_set m s =
     (Inl (NameError ''json''), s\<lparr>generated := generated s @ [m]\<rparr>)"
  using assms by (simp add: generate_and_validate_def cache_prediction_raises)

lemma validate_accepted_example: "validate_prediction accepted_example = Inr (True, msg_ok)"
  using validate_prediction_wf [of accepted_example "0.8"
      "[(''home'', PNum 0.5), (''draw'', PNum 0.35), (''away'', PNum 0.2)]" "[0.5, 0.35, 0.2]" 2 1
      "[(''team_form'', PNum 1), (''historical_performance'', PNum 1),
        (''player_statistics'', PNum 1), (''weather_conditions'', PNum 1)]"]
  by (simp add: accepted_example_def example_prediction_fields all_features_def)

lemma validate_rejected_example:
  "validate_prediction rejected_example = Inr (False, msg_low_confidence)"
  using validate_prediction_wf [of rejected_example "0.5"
      "[(''home'', PNum 0.5), (''draw'', PNum 0.35), (''away'', PNum 0.2)]" "[0.5, 0.35, 0.2]" 2 1
      "[(''team_form'', PNum 1), (''historical_performance'', PNum 1),
        (''player_statistics'', PNum 1), (''weather_conditions'', PNum 1)]"]
  by (simp add: rejected_example_def example_prediction_fields all_features_def)

lemma stored_service_found:
  "t < 21600000000 \<Longrightarrow>
     redis_get (redis stored_service) (server_now (clock_at t)) (prediction_key ''M1'')
       = Some stored_entry"
  by (simp add: stored_service_def clock_at_def redis_get_def prediction_key_def)

lemma stored_entry_not_empty: "stored_entry \<noteq> []"
  by (simp add: stored_entry_def)

lemma stored_service_expired:
  "t \<ge> 21600000000 \<Longrightarrow>
     redis_get (redis stored_service) (server_now (clock_at t)) (prediction_key ''M1'') = None"
  by (simp add: stored_service_def clock_at_def redis_get_def prediction_key_def)

text \<open>
  \<^bold>\<open>C3\<close>. The claim asks that a prediction cached at \<open>t0\<close> is returned by every read
  before \<open>t0 + 6h\<close> and that no read fails. The code does not do that:
  \<^verbatim>\<open>cache_prediction\<close> at instant 0 stamps the accepted example and raises
  \<^verbatim>\<open>NameError\<close> before \<^verbatim>\<open>SETEX\<close> is sent, and \<^verbatim>\<open>get_cached_prediction\<close> at 5 h 59 min,
  on a store that holds an entry expiring at 6 h, raises \<^verbatim>\<open>NameError\<close> instead of
  returning the entry. What the claim says of an expired key (a read at 6 h 1 min) and of an
  absent key does hold: both reads return \<^verbatim>\<open>None\<close>.
\<close>

theorem cached_entry_not_returned:
  "cache_prediction Map.empty (clock_at 0) ''M1'' accepted_example
     = (Inl (NameError ''json''), stamped_example 0)
   \<and> get_cached_prediction (redis stored_service) (clock_at 21540000000) ''M1''
     = Inl (NameError ''json'')
   \<and> get_cached_prediction (redis stored_service) (clock_at 21660000000) ''M1'' = Inr None
   \<and> get_cached_prediction Map.empty (clock_at 0) ''M1'' = Inr None"
proof -
  have store: "cache_prediction Map.empty (clock_at 0) ''M1'' accepted_example
     = (Inl (NameError ''json''), stamped_example 0)"
    using cache_accepted_example [of Map.empty "clock_at 0" "''M1''"]
    by (simp add: cache_prediction_raises clock_at_def)
  have fresh: "get_cached_prediction (redis stored_service) (clock_at 21540000000) ''M1''
     = Inl (NameError ''json'')"
    by (rule get_cached_found [OF stored_service_found stored_entry_not_empty]) simp
  have stale: "get_cached_prediction (redis stored_service) (clock_at 21660000000) ''M1''
     = Inr None"
    by (rule get_cached_absent [OF stored_service_expired]) simp
  have absent: "get_cached_prediction Map.empty (clock_at 0) ''M1'' = Inr None"
    by (simp add: get_cached_absent redis_get_def)
  from store fresh stale absent show ?thesis
    by simp
qed

text \<open>
  \<^bold>\<open>C4\<close>. When the cache lookup misses, the engine returns a prediction and the
  validator rejects it, \<^verbatim>\<open>get_prediction\<close> returns, as a value and not as an exception,
  the fallback prediction: null home score, null away score, confidence 0 and the message
  "Prediction impossible - donnees insuffisantes" (with the accents of the source). It
  logs one warning with the match and the reason, and leaves the Redis store as it was; so
  a read of the same match at any later time of the server is still a miss.
\<close>

theorem fallback_not_cached:
  assumes "get_cached_prediction (redis s) clk_get m = Inr None"
    and "generate m = Inr p"
    and "validate_prediction p = Inr (False, reason)"
  shows "fst (get_prediction generate clk_get clk_set m s) = Inr (get_fallback_prediction m)
    \<and> get_fallback_prediction m =
        [(''home_score'', PNone),
         (''away_score'', PNone),
         (''confidence'', PNum 0),
         (''message'',
          PStr (''Pr'' @ [CHR 0xC3, CHR 0xA9] @ ''diction impossible - donn''
                @ [CHR 0xC3, CHR 0xA9] @ ''es insuffisantes''))]
    \<and> redis (snd (get_prediction generate clk_get clk_set m s)) = redis s
    \<and> warnings (snd (get_prediction generate clk_get clk_set m s))
        = warnings s @ [WarningInvalid m reason]
    \<and> generated (snd (get_prediction generate clk_get clk_set m s)) = generated s @ [m]
    \<and> (\<forall>clk. server_now clk \<ge> server_now clk_get \<longrightarrow>
         get_cached_prediction (redis (snd (get_prediction generate clk_get clk_set m s))) clk m
           = Inr None)"
proof -
  have run: "get_prediction generate clk_get clk_set m s =
     (Inr (get_fallback_prediction m),
      s\<lparr>generated := generated s @ [m],
        warnings := warnings s @ [WarningInvalid m reason]\<rparr>)"
    using assms by (simp add: get_prediction_miss generate_and_validate_rejected)
  have later: "get_cached_prediction (redis s) clk m = Inr None"
    if "server_now clk \<ge> server_now clk_get" for clk
    using assms(1) that by (rule get_cached_miss_mono)
  have fallback: "get_fallback_prediction m =
        [(''home_score'', PNone),
         (''away_score'', PNone),
         (''confidence'', PNum 0),
         (''message'',
          PStr (''Pr'' @ [CHR 0xC3, CHR 0xA9] @ ''diction impossible - donn''
                @ [CHR 0xC3, CHR 0xA9] @ ''es insuffisantes''))]"
    by (simp add: get_fallback_prediction_def e_acute_def)
  show ?thesis
    using fallback by (simp add: run later)
qed

theorem fallback_not_cached_witness:
  "fst (get_prediction (\<lambda>m. Inr rejected_example) (clock_at 0) (clock_at 1) ''M1''
          empty_service)
      = Inr (get_fallback_prediction ''M1'')
   \<and> redis (snd (get_prediction (\<lambda>m. Inr rejected_example) (clock_at 0) (clock_at 1) ''M1''
          empty_service))
      = Map.empty
   \<and> warnings (snd (get_prediction (\<lambda>m. Inr rejected_example) (clock_at 0) (clock_at 1)
          ''M1'' empty_service))
      = [WarningInvalid ''M1'' msg_low_confidence]
   \<and> get_cached_prediction
        (redis (snd (get_prediction (\<lambda>m. Inr rejected_example) (clock_at 0) (clock_at 1)
          ''M1'' empty_service)))
        (clock_at 2) ''M1'' = Inr None"
proof -
  have miss: "get_cached_prediction (redis empty_service) (clock_at 0) ''M1'' = Inr None"
    by (simp add: empty_service_def get_cached_absent redis_get_def)
  have gen: "(\<lambda>m. Inr rejected_example :: error + pydict) ''M1'' = Inr rejected_example"
    by simp
  have later: "server_now (clock_at 0) \<le> server_now (clock_at 2)"
    by (simp add: clock_at_def)
  from fallback_not_cached [OF miss gen validate_rejected_example, of "clock_at 1"] later
  show ?thesis
    unfolding empty_service_def by (elim conjE allE [of _ "clock_at 2"]) simp
qed

text \<open>
  \<^bold>\<open>C7\<close>. The claim asks that a fresh cached entry is returned as it is, and that a
  second request within six hours of an accepted first one returns the same prediction
  without an engine call. The code does not do that: a request at instant 5 on a store that
  holds a fresh entry for the match raises \<^verbatim>\<open>NameError\<close> where the entry is parsed, and a
  first request whose prediction the validator accepts raises \<^verbatim>\<open>NameError\<close> where the
  prediction is serialised, after the engine call, with nothing stored for a second
  request to find.
\<close>

theorem cache_hit_raises:
  "get_prediction (\<lambda>m. Inr accepted_example) (clock_at 5) (clock_at 5) ''M1'' stored_service
     = (Inl (NameError ''json''), stored_service)
   \<and> get_prediction (\<lambda>m. Inr accepted_example) (clock_at 0) (clock_at 1) ''M1'' empty_service
     = (Inl (NameError ''json''),
        \<lparr>redis = Map.empty, warnings = [], generated = [''M1'']\<rparr>)"
proof -
  have found: "get_cached_prediction (redis stored_service) (clock_at 5) ''M1''
     = Inl (NameError ''json'')"
    by (rule get_cached_found [OF stored_service_found stored_entry_not_empty]) simp
  have miss: "get_cached_prediction (redis empty_service) (clock_at 0) ''M1'' = Inr None"
    by (simp add: empty_service_def get_cached_absent redis_get_def)
  have hit: "get_prediction (\<lambda>m. Inr accepted_example) (clock_at 5) (clock_at 5) ''M1''
      stored_service = (Inl (NameError ''json''), stored_service)"
    using found by (rule get_prediction_raised)
  have first: "get_prediction (\<lambda>m. Inr accepted_example) (clock_at 0) (clock_at 1) ''M1''
      empty_service
     = (Inl (NameError ''json''), \<lparr>redis = Map.empty, warnings = [], generated = [''M1'']\<rparr>)"
    using miss validate_accepted_example
    by (simp add: get_prediction_miss generate_and_validate_accepted empty_service_def)
  from hit first show ?thesis
    by simp
qed

text \<open>
  \<^bold>\<open>C9\<close>, as stated, fails: \<^verbatim>\<open>cache_prediction\<close> assigns to the \<^verbatim>\<open>timestamp\<close> key
  of the dictionary it is given, so the prediction the engine produced is altered: the
  accepted example has a field after the call that it did not have before.
\<close>

theorem prediction_immutable_counterexample:
  "snd (cache_prediction Map.empty (clock_at 1) ''M1'' accepted_example) \<noteq> accepted_example
   \<and> map_of accepted_example ''timestamp'' = None
   \<and> map_of (snd (cache_prediction Map.empty (clock_at 1) ''M1'' accepted_example))
       ''timestamp'' = Some (PIso 1)"
proof -
  have stamped: "snd (cache_prediction Map.empty (clock_at 1) ''M1'' accepted_example)
      = stamped_example 1"
    using cache_accepted_example [of Map.empty "clock_at 1" "''M1''"]
    by (simp add: clock_at_def)
  have changed: "stamped_example 1 \<noteq> accepted_example"
    by (simp add: stamped_example_def)
  have before: "map_of accepted_example ''timestamp'' = None"
    by (simp add: accepted_example_def example_prediction_def)
  have after: "map_of (stamped_example 1) ''timestamp'' = Some (PIso 1)"
    by (simp add: stamped_example_def accepted_example_def example_prediction_def)
  from changed before after show ?thesis
    by (simp only: stamped simp_thms)
qed

text \<open>
  \<^bold>\<open>C9\<close>, amended. \<^verbatim>\<open>cache_prediction\<close> changes the prediction it is given in one
  field: it sets the \<^verbatim>\<open>timestamp\<close> key to the rendering of the process clock at the call,
  adding the key or overwriting it, and leaves every other key with the value the engine
  produced.
\<close>

theorem prediction_changed_only_by_timestamp:
  "map_of (snd (cache_prediction r clk m p)) k
     = (if k = ''timestamp'' then Some (PIso (process_now clk)) else map_of p k)"
  by (simp add: cache_prediction_raises map_of_dict_set)

theorem prediction_changed_only_by_timestamp_witness:
  "map_of (snd (cache_prediction Map.empty (clock_at 1) ''M1'' accepted_example)) ''confidence''
     = Some (PNum 0.8)
   \<and> map_of (snd (cache_prediction Map.empty (clock_at 1) ''M1'' accepted_example)) ''timestamp''
     = Some (PIso 1)
   \<and> map_of (snd (cache_prediction Map.empty (clock_at 1) ''M1'' (stamped_example 0)))
        ''timestamp'' = Some (PIso 1)"
proof -
  have conf: "map_of accepted_example ''confidence'' = Some (PNum 0.8)"
    by (simp add: accepted_example_def example_prediction_fields)
  from prediction_changed_only_by_timestamp
      [of Map.empty "clock_at 1" "''M1''" accepted_example "''confidence''"]
    prediction_changed_only_by_timestamp
      [of Map.empty "clock_at 1" "''M1''" accepted_example "''timestamp''"]
    prediction_changed_only_by_timestamp
      [of Map.empty "clock_at 1" "''M1''" "stamped_example 0" "''timestamp''"]
    conf
  show ?thesis
    by (simp add: clock_at_def)
qed

section \<open>The update cycle\<close>

text \<open>What \<^verbatim>\<open>update_models\<close> leaves behind, from the outcome of the \<^verbatim>\<open>try\<close> block.\<close>

lemma update_models_raised:
  assumes "update_models_try ext (self\<lparr>update_lock := True,
      log := log self @ [InfoUpdateStarted]\<rparr>) = Inl e"
  shows "update_models ext self =
     Inr (self\<lparr>update_lock := False, log := log self @ [InfoUpdateStarted, ErrorUpdate e]\<rparr>)"
  using assms by (simp add: update_models_def Let_def)

lemma update_models_returned:
  assumes "update_models_try ext (self\<lparr>update_lock := True,
      log := log self @ [InfoUpdateStarted]\<rparr>) = Inr done"
  shows "update_models ext self = Inr (done\<lparr>update_lock := False\<rparr>)"
  using assms by (simp add: update_models_def Let_def)

lemma update_models_total: "\<exists>self'. update_models ext self = Inr self'"
  by (simp add: update_models_def Let_def split: sum.splits)

lemma schedule_model_update_total:
  "\<exists>self'. schedule_model_update wakes self = Inr self'"
proof (induction wakes arbitrary: self)
  case Nil
  show ?case by simp
next
  case (Cons w wakes)
  obtain current_hour ext where w: "w = (current_hour, ext)"
    by (cases w)
  have "\<exists>self1. (if current_hour = 3 then update_models ext self else Inr self) = Inr self1"
    using update_models_total [of ext self] by (cases "current_hour = 3") simp_all
  then obtain self1
    where "(if current_hour = 3 then update_models ext self else Inr self) = Inr self1" ..
  with Cons.IH [of self1] w show ?case
    by simp
qed

text \<open>The outcomes of the \<^verbatim>\<open>try\<close> block: the decision is reached when the four steps
  before it return.\<close>

lemma update_models_try_decided:
  assumes "collect_new_training_data ext = Inr new_data"
    and "evaluate_current_models ext (models self) new_data = Inr current_metrics"
    and "train_new_models ext new_data = Inr new_models"
    and "evaluate_models ext new_models new_data = Inr new_metrics"
  shows "update_models_try ext self =
     bind (should_update_models current_metrics new_metrics) (\<lambda>promote.
       if promote then
         bind (deploy_new_models ext (models self) new_models) (\<lambda>deployed.
           Inr (self\<lparr>models := deployed,
                      current_model_version := current_model_version self + 0.1,
                      log := log self @ [InfoUpdated (current_model_version self + 0.1)]\<rparr>))
       else Inr self)"
  using assms unfolding update_models_try_def Let_def by simp

text \<open>A cycle either leaves version and models alone or adds 0.1 to the version.\<close>

lemma update_models_try_version:
  assumes "update_models_try ext self = Inr done"
  shows "done = self \<or> current_model_version done = current_model_version self + 0.1"
  using assms unfolding update_models_try_def Let_def
  by (auto simp: bind_eq_Inr split: if_splits)

lemma should_update_metrics:
  "should_update_models (metrics ca cr cl) (metrics na nr nl)
     = Inr (na - ca > 0.02 \<and> cr - nr > 0.02 \<and> cl - nl > 0.02)"
  by (simp add: should_update_models_def metrics_comparison_def dict_get_def metrics_def
      improvement_threshold_def)

text \<open>
  \<^bold>\<open>C6\<close>. \<^verbatim>\<open>update_models\<close> always returns, with the lock released, and either leaves
  version and models as they were or has added 0.1 to the version. When the four steps
  before the decision return: if \<^verbatim>\<open>should_update_models\<close> is true and the deployment
  returns, the models are the deployed ones and the version is the old one plus 0.1; if it
  is false, version and models are unchanged. When data collection, an evaluation, the
  training, the decision or the deployment raises, the exception is logged, not raised
  again, and version and models are unchanged. The scheduler loop completes every
  iteration of every sequence of wake-ups: no cycle ends it.
\<close>

theorem update_cycle_outcomes:
  "(\<exists>self'. update_models ext self = Inr self' \<and> \<not> update_lock self'
      \<and> (models self' = models self
            \<and> current_model_version self' = current_model_version self
          \<or> current_model_version self' = current_model_version self + 0.1))
   \<and> (collect_new_training_data ext = Inr new_data
       \<and> evaluate_current_models ext (models self) new_data = Inr current_metrics
       \<and> train_new_models ext new_data = Inr new_models
       \<and> evaluate_models ext new_models new_data = Inr new_metrics \<longrightarrow>
      (should_update_models current_metrics new_metrics = Inr True
         \<and> deploy_new_models ext (models self) new_models = Inr deployed \<longrightarrow>
       update_models ext self =
         Inr (self\<lparr>models := deployed,
                   current_model_version := current_model_version self + 0.1,
                   log := log self @ [InfoUpdateStarted,
                                      InfoUpdated (current_model_version self + 0.1)],
                   update_lock := False\<rparr>))
      \<and> (should_update_models current_metrics new_metrics = Inr False \<longrightarrow>
       update_models ext self =
         Inr (self\<lparr>log := log self @ [InfoUpdateStarted], update_lock := False\<rparr>))
      \<and> (should_update_models current_metrics new_metrics = Inl e
          \<or> should_update_models current_metrics new_metrics = Inr True
            \<and> deploy_new_models ext (models self) new_models = Inl e \<longrightarrow>
       update_models ext self =
         Inr (self\<lparr>log := log self @ [InfoUpdateStarted, ErrorUpdate e],
                   update_lock := False\<rparr>)))
   \<and> (collect_new_training_data ext = Inl e
       \<or> collect_new_training_data ext = Inr new_data
         \<and> evaluate_current_models ext (models self) new_data = Inl e
       \<or> collect_new_training_data ext = Inr new_data
         \<and> evaluate_current_models ext (models self) new_data = Inr current_metrics
         \<and> train_new_models ext new_data = Inl e
       \<or> collect_new_training_data ext = Inr new_data
         \<and> evaluate_current_models ext (models self) new_data = Inr current_metrics
         \<and> train_new_models ext new_data = Inr new_models
         \<and> evaluate_models ext new_models new_data = Inl e \<longrightarrow>
      update_models ext self =
        Inr (self\<lparr>log := log self @ [InfoUpdateStarted, ErrorUpdate e],
                  update_lock := False\<rparr>))
   \<and> (\<exists>self'. schedule_model_update wakes self = Inr self')"
proof -
  let ?locked = "self\<lparr>update_lock := True, log := log self @ [InfoUpdateStarted]\<rparr>"
  have always: "\<exists>self'. update_models ext self = Inr self' \<and> \<not> update_lock self'
      \<and> (models self' = models self
            \<and> current_model_version self' = current_model_version self
          \<or> current_model_version self' = current_model_version self + 0.1)"
  proof (cases "update_models_try ext ?locked")
    case (Inl e')
    then show ?thesis
      by (simp add: update_models_raised)
  next
    case (Inr finished)
    then have "finished = ?locked
        \<or> current_model_version finished = current_model_version ?locked + 0.1"
      by (rule update_models_try_version)
    with Inr show ?thesis
      by (auto simp: update_models_returned)
  qed
  have decided: "update_models_try ext ?locked =
     bind (should_update_models current_metrics new_metrics) (\<lambda>promote.
       if promote then
         bind (deploy_new_models ext (models self) new_models) (\<lambda>deployed.
           Inr (?locked\<lparr>models := deployed,
                      current_model_version := current_model_version self + 0.1,
                      log := log ?locked @ [InfoUpdated (current_model_version self + 0.1)]\<rparr>))
       else Inr ?locked)"
    if "collect_new_training_data ext = Inr new_data"
      "evaluate_current_models ext (models self) new_data = Inr current_metrics"
      "train_new_models ext new_data = Inr new_models"
      "evaluate_models ext new_models new_data = Inr new_metrics"
    using update_models_try_decided [of ext new_data ?locked current_metrics new_models
        new_metrics] that
    by (simp cong: if_cong)
  have promoted: "update_models ext self =
         Inr (self\<lparr>models := deployed,
                   current_model_version := current_model_version self + 0.1,
                   log := log self @ [InfoUpdateStarted,
                                      InfoUpdated (current_model_version self + 0.1)],
                   update_lock := False\<rparr>)"
    if "collect_new_training_data ext = Inr new_data"
      "evaluate_current_models ext (models self) new_data = Inr current_metrics"
      "train_new_models ext new_data = Inr new_models"
      "evaluate_models ext new_models new_data = Inr new_metrics"
      "should_update_models current_metrics new_metrics = Inr True"
      "deploy_new_models ext (models self) new_models = Inr deployed"
    using decided [OF that(1-4)] that(5,6)
    by (simp add: update_models_returned)
  have rejected: "update_models ext self =
         Inr (self\<lparr>log := log self @ [InfoUpdateStarted], update_lock := False\<rparr>)"
    if "collect_new_training_data ext = Inr new_data"
      "evaluate_current_models ext (models self) new_data = Inr current_metrics"
      "train_new_models ext new_data = Inr new_models"
      "evaluate_models ext new_models new_data = Inr new_metrics"
      "should_update_models current_metrics new_metrics = Inr False"
    using decided [OF that(1-4)] that(5)
    by (simp add: update_models_returned)
  have late: "update_models ext self =
         Inr (self\<lparr>log := log self @ [InfoUpdateStarted, ErrorUpdate e],
                   update_lock := False\<rparr>)"
    if "collect_new_training_data ext = Inr new_data"
      "evaluate_current_models ext (models self) new_data = Inr current_metrics"
      "train_new_models ext new_data = Inr new_models"
      "evaluate_models ext new_models new_data = Inr new_metrics"
      "should_update_models current_metrics new_metrics = Inl e
          \<or> should_update_models current_metrics new_metrics = Inr True
            \<and> deploy_new_models ext (models self) new_models = Inl e"
  proof -
    have "update_models_try ext ?locked = Inl e"
      using decided [OF that(1-4)] that(5) by auto
    then show ?thesis
      by (simp add: update_models_raised)
  qed
  have early: "update_models ext self =
        Inr (self\<lparr>log := log self @ [InfoUpdateStarted, ErrorUpdate e],
                  update_lock := False\<rparr>)"
    if "collect_new_training_data ext = Inl e
       \<or> collect_new_training_data ext = Inr new_data
         \<and> evaluate_current_models ext (models self) new_data = Inl e
       \<or> collect_new_training_data ext = Inr new_data
         \<and> evaluate_current_models ext (models self) new_data = Inr current_metrics
         \<and> train_new_models ext new_data = Inl e
       \<or> collect_new_training_data ext = Inr new_data
         \<and> evaluate_current_models ext (models self) new_data = Inr current_metrics
         \<and> train_new_models ext new_data = Inr new_models
         \<and> evaluate_models ext new_models new_data = Inl e"
  proof -
    have "update_models_try ext ?locked = Inl e"
      using that unfolding update_models_try_def by auto
    then show ?thesis
      by (simp add: update_models_raised)
  qed
  have loop: "\<exists>self'. schedule_model_update wakes self = Inr self'"
    by (rule schedule_model_update_total)
  from always promoted rejected late early loop show ?thesis
    by blast
qed

theorem update_cycle_outcomes_witness:
  "update_models (steps0 (Inr ()) 0.73) manager0 =
     Inr \<lparr>current_model_version = 1.1, models = 1, update_lock = False,
          log = [InfoUpdateStarted, InfoUpdated 1.1]\<rparr>
   \<and> update_models (steps0 (Inr ()) 0.71) manager0 =
     Inr \<lparr>current_model_version = 1.0, models = 0, update_lock = False,
          log = [InfoUpdateStarted]\<rparr>
   \<and> update_models (steps0 (Inl (ExternalFailure ''no data'')) 0.73) manager0 =
     Inr \<lparr>current_model_version = 1.0, models = 0, update_lock = False,
          log = [InfoUpdateStarted, ErrorUpdate (ExternalFailure ''no data'')]\<rparr>
   \<and> (\<exists>self'. schedule_model_update
         [(3, steps0 (Inl (ExternalFailure ''no data'')) 0.73), (4, steps0 (Inr ()) 0.73),
          (3, steps0 (Inr ()) 0.73)] manager0 = Inr self')"
proof -
  have promote: "should_update_models (metrics 0.70 1.0 0.5) (metrics 0.73 0.95 0.47) = Inr True"
    by (simp add: should_update_metrics)
  have reject: "should_update_models (metrics 0.70 1.0 0.5) (metrics 0.71 0.95 0.47) = Inr False"
    by (simp add: should_update_metrics)
  from
    update_cycle_outcomes [where ext = "steps0 (Inr ()) 0.73" and self = manager0
      and new_data = "()" and current_metrics = "metrics 0.70 1.0 0.5" and new_models = 1
      and new_metrics = "metrics 0.73 0.95 0.47" and deployed = 1
      and wakes = "[(3, steps0 (Inl (ExternalFailure ''no data'')) 0.73),
          (4, steps0 (Inr ()) 0.73), (3, steps0 (Inr ()) 0.73)]"]
    update_cycle_outcomes [where ext = "steps0 (Inr ()) 0.71" and self = manager0
      and new_data = "()" and current_metrics = "metrics 0.70 1.0 0.5" and new_models = 1
      and new_metrics = "metrics 0.71 0.95 0.47" and deployed = 1 and wakes = "[]"]
    update_cycle_outcomes [where ext = "steps0 (Inl (ExternalFailure ''no data'')) 0.73"
      and self = manager0 and e = "ExternalFailure ''no data''" and new_data = "()"
      and new_models = 1 and deployed = 1 and wakes = "[]"]
    promote reject
  show ?thesis
    by (simp add: steps0_def manager0_def)
qed

section \<open>Concurrent callers\<close>

lemma filter_update_count:
  "i < length xs \<Longrightarrow>
     length (filter P (xs[i := y])) + (if P (xs ! i) then 1 else 0)
       = length (filter P xs) + (if P y then 1 else 0)"
proof (induction xs arbitrary: i)
  case Nil
  then show ?case by simp
next
  case (Cons x xs)
  show ?case
  proof (cases i)
    case 0
    then show ?thesis by simp
  next
    case (Suc j)
    with Cons.prems have "j < length xs" by simp
    from Cons.IH [OF this] Suc show ?thesis by simp
  qed
qed

lemma cycles_update:
  assumes "i < length (tasks s)"
  shows "cycles (s\<lparr>tasks := (tasks s)[i := p]\<rparr>) + (if in_cycle (tasks s ! i) then 1 else 0)
     = cycles s + (if in_cycle p then 1 else 0)"
  using filter_update_count [OF assms, of in_cycle p] by (simp add: cycles_def)

lemma lock_inv_acquire:
  assumes "lock_inv s" and "i < length (tasks s)" and "\<not> in_cycle (tasks s ! i)"
  shows "lock_inv (acquire i s)"
  using assms cycles_update [OF assms(2), of WaitingForLock]
    cycles_update [OF assms(2), of Collecting]
  by (auto simp: lock_inv_def acquire_def cycles_def)

lemma lock_inv_release:
  assumes "lock_inv s" and "i < length (tasks s)" and "in_cycle (tasks s ! i)"
  shows "lock_inv (release i s)"
  using assms cycles_update [OF assms(2), of Idle]
  by (auto simp: lock_inv_def release_def cycles_def split: if_splits)

lemma lock_inv_goto:
  assumes "lock_inv s" and "i < length (tasks s)" and "in_cycle (tasks s ! i)" and "in_cycle p"
  shows "lock_inv (goto i p s)"
  using assms cycles_update [OF assms(2), of p]
  by (auto simp: lock_inv_def goto_def cycles_def)

lemma lock_inv_step: "lock_inv s \<Longrightarrow> lock_inv (step ev s)"
proof (cases ev)
  case (Returns i promote)
  assume "lock_inv s"
  then show ?thesis
    using Returns
    by (cases "tasks s ! i") (auto intro: lock_inv_goto lock_inv_release)
qed (auto intro: lock_inv_acquire lock_inv_release)

lemma lock_inv_run: "lock_inv s \<Longrightarrow> lock_inv (run evs s)"
  unfolding run_def by (induction evs arbitrary: s) (auto intro: lock_inv_step)

lemma lock_inv_idle: "lock_inv (idle_tasks n)"
  by (simp add: lock_inv_def cycles_def idle_tasks_def)

lemma filter_at_most_one:
  assumes "length (filter P xs) \<le> 1"
    and "i < length xs" and "j < length xs" and "P (xs ! i)" and "P (xs ! j)"
  shows "i = j"
  using assms
proof (induction xs arbitrary: i j)
  case Nil
  then show ?case by simp
next
  case (Cons x xs)
  have none: "\<not> P (xs ! k)" if "P x" "k < length xs" for k
  proof
    assume "P (xs ! k)"
    with that(2) have "xs ! k \<in> set (filter P xs)"
      by simp
    then have "length (filter P xs) > 0"
      by (rule length_pos_if_in_set)
    with Cons.prems(1) that(1) show False
      by simp
  qed
  show ?case
  proof (cases i)
    case 0
    then show ?thesis
      using Cons.prems none by (cases j) auto
  next
    case (Suc i')
    show ?thesis
    proof (cases j)
      case 0
      then show ?thesis
        using Cons.prems none Suc by auto
    next
      case (Suc j')
      have "length (filter P xs) \<le> 1"
        using Cons.prems(1) by (simp split: if_splits)
      from Cons.IH [OF this, of i' j'] Cons.prems \<open>i = Suc i'\<close> Suc show ?thesis
        by simp
    qed
  qed
qed

text \<open>
  \<^bold>\<open>C1\<close>. Whatever tasks call \<^verbatim>\<open>update_models\<close> on the manager and however the event
  loop interleaves them, at most one task is inside the \<^verbatim>\<open>async with\<close> block at any
  moment, so no two are between data collection and deployment together, and in particular
  no two train a candidate together; the lock is held exactly while one task is inside.
  A task inside the block releases the lock when a step raises, when the decision is not
  to promote, and when the deployment returns.
\<close>

theorem single_flight_update:
  "cycles (run evs (idle_tasks n)) \<le> 1
   \<and> (locked (run evs (idle_tasks n)) \<longleftrightarrow> cycles (run evs (idle_tasks n)) = 1)
   \<and> (i < length (tasks (run evs (idle_tasks n)))
       \<and> j < length (tasks (run evs (idle_tasks n)))
       \<and> in_cycle (tasks (run evs (idle_tasks n)) ! i)
       \<and> in_cycle (tasks (run evs (idle_tasks n)) ! j) \<longrightarrow> i = j)
   \<and> (i < length (tasks s) \<and> in_cycle (tasks s ! i) \<longrightarrow>
        \<not> locked (step (Raises i) s) \<and> tasks (step (Raises i) s) ! i = Idle)
   \<and> (i < length (tasks s) \<and> tasks s ! i = EvaluatingCandidate \<longrightarrow>
        \<not> locked (step (Returns i False) s) \<and> tasks (step (Returns i False) s) ! i = Idle)
   \<and> (i < length (tasks s) \<and> tasks s ! i = Deploying \<longrightarrow>
        \<not> locked (step (Returns i promote) s)
        \<and> tasks (step (Returns i promote) s) ! i = Idle)"
proof -
  let ?s = "run evs (idle_tasks n)"
  have inv: "lock_inv ?s"
    using lock_inv_idle by (rule lock_inv_run)
  then have one: "cycles ?s \<le> 1" and held: "locked ?s \<longleftrightarrow> cycles ?s = 1"
    by (simp_all add: lock_inv_def split: if_splits)
  have same: "i = j"
    if "i < length (tasks ?s)" "j < length (tasks ?s)"
      "in_cycle (tasks ?s ! i)" "in_cycle (tasks ?s ! j)"
    using one that unfolding cycles_def by (rule filter_at_most_one)
  have raised: "\<not> locked (step (Raises i) s) \<and> tasks (step (Raises i) s) ! i = Idle"
    if "i < length (tasks s)" "in_cycle (tasks s ! i)"
    using that by (simp add: release_def)
  have rejected: "\<not> locked (step (Returns i False) s)
      \<and> tasks (step (Returns i False) s) ! i = Idle"
    if "i < length (tasks s)" "tasks s ! i = EvaluatingCandidate"
    using that by (simp add: release_def)
  have deployed: "\<not> locked (step (Returns i promote) s)
      \<and> tasks (step (Returns i promote) s) ! i = Idle"
    if "i < length (tasks s)" "tasks s ! i = Deploying"
    using that by (simp add: release_def)
  from one held same raised rejected deployed show ?thesis
    by blast
qed

lemma run_two_callers:
  "run two_callers (idle_tasks 2) = \<lparr>locked = True, tasks = [TrainingCandidate, WaitingForLock]\<rparr>"
  by (simp add: run_def two_callers_def idle_tasks_def acquire_def goto_def
      numeral_2_eq_2)

theorem single_flight_update_witness:
  "cycles (run two_callers (idle_tasks 2)) = 1
   \<and> tasks (run two_callers (idle_tasks 2)) = [TrainingCandidate, WaitingForLock]
   \<and> \<not> locked (step (Raises 0) (run two_callers (idle_tasks 2)))
   \<and> tasks (step (Wake 1) (step (Raises 0) (run two_callers (idle_tasks 2))))
       = [Idle, Collecting]"
proof -
  have inside: "0 < length (tasks (run two_callers (idle_tasks 2)))
      \<and> in_cycle (tasks (run two_callers (idle_tasks 2)) ! 0)"
    by (simp add: run_two_callers)
  from single_flight_update [of two_callers 2 0 0 "run two_callers (idle_tasks 2)" True] inside
  show ?thesis
    by (simp add: run_two_callers acquire_def release_def)
qed

end
